theory Spec2Isabelle
  imports Complex_Main "HOL-Library.AList" "HOL-Library.Sublist"
begin

section \<open>The file system the organizer runs on\<close>

text \<open>
  \<^verbatim>\<open>File_Organizer.py\<close> reaches the file system only through \<^verbatim>\<open>os\<close>, \<^verbatim>\<open>os.path\<close>
  and \<^verbatim>\<open>shutil\<close>. A path is the list of its components below the root, so that
  \<^verbatim>\<open>os.path.join(directory, folder, filename)\<close> is \<open>directory @ [folder, filename]\<close>;
  this is exact for the names \<^verbatim>\<open>os.listdir\<close> returns and for category names that are
  plain names (no separator, not \<^verbatim>\<open>.\<close> or \<^verbatim>\<open>..\<close>). The file system is an association
  list from paths to nodes: its order is the order in which \<^verbatim>\<open>os.listdir\<close> enumerates.
  A directory carries its write permission (the permission to create, rename and delete
  entries in it); new directories are created writable. Strings are byte strings.
\<close>

type_synonym path = "string list"

datatype node = Dir (writable: bool) | File (content: string) (mtime: nat)

type_synonym filesystem = "(path \<times> node) list"

datatype py_error =
    FileNotFoundError | FileExistsError | NotADirectoryError | IsADirectoryError
  | PermissionError | OSError | ShutilError | SameFileError | ReError

text \<open>\<^verbatim>\<open>except (PermissionError, OSError)\<close>: every error of \<^verbatim>\<open>os\<close> and \<^verbatim>\<open>shutil\<close> is an
  \<^verbatim>\<open>OSError\<close>; \<^verbatim>\<open>re.error\<close> is not.\<close>

fun is_OSError :: "py_error \<Rightarrow> bool" where
  "is_OSError ReError = False"
| "is_OSError _ = True"

text \<open>The root \<open>[]\<close> always exists and is a writable directory.\<close>

definition lookup :: "filesystem \<Rightarrow> path \<Rightarrow> node option" where
  "lookup fsys p = (if p = [] then Some (Dir True) else map_of fsys p)"

definition os_path_exists :: "filesystem \<Rightarrow> path \<Rightarrow> bool" where
  "os_path_exists fsys p = (lookup fsys p \<noteq> None)"

definition os_path_isdir :: "filesystem \<Rightarrow> path \<Rightarrow> bool" where
  "os_path_isdir fsys p = (case lookup fsys p of Some (Dir w) \<Rightarrow> True | _ \<Rightarrow> False)"

definition basename :: "path \<Rightarrow> string" where
  "basename p = (if p = [] then [] else last p)"

text \<open>Creating, renaming or deleting the entry \<open>p\<close> needs its parent to be a writable
  directory.\<close>

definition parent_check :: "filesystem \<Rightarrow> path \<Rightarrow> py_error option" where
  "parent_check fsys p =
     (if p = [] then Some PermissionError
      else case lookup fsys (butlast p) of
             None \<Rightarrow> Some FileNotFoundError
           | Some (File c m) \<Rightarrow> Some NotADirectoryError
           | Some (Dir w) \<Rightarrow> if w then None else Some PermissionError)"

definition os_mkdir :: "filesystem \<Rightarrow> path \<Rightarrow> py_error + filesystem" where
  "os_mkdir fsys p =
     (if os_path_exists fsys p then Inl FileExistsError
      else case parent_check fsys p of
             Some e \<Rightarrow> Inl e
           | None \<Rightarrow> Inr (AList.update p (Dir True) fsys))"

text \<open>\<^verbatim>\<open>os.makedirs(name)\<close>: the missing ancestors first (a \<^verbatim>\<open>FileExistsError\<close> of the
  recursive call is passed over), then \<^verbatim>\<open>mkdir(name)\<close>.\<close>

function os_makedirs :: "filesystem \<Rightarrow> path \<Rightarrow> py_error + filesystem" where
  "os_makedirs fsys name =
     (if name \<noteq> [] \<and> butlast name \<noteq> [] \<and> \<not> os_path_exists fsys (butlast name) then
        (case os_makedirs fsys (butlast name) of
           Inr fsys' \<Rightarrow> os_mkdir fsys' name
         | Inl e \<Rightarrow> if e = FileExistsError then os_mkdir fsys name else Inl e)
      else os_mkdir fsys name)"
  by pat_completeness auto
termination
  by (relation "measure (\<lambda>(fsys, name). length name)") auto

definition children :: "filesystem \<Rightarrow> path \<Rightarrow> string list" where
  "children fsys d =
     List.map_filter (\<lambda>(p, n). if p \<noteq> [] \<and> butlast p = d then Some (last p) else None) fsys"

definition os_listdir :: "filesystem \<Rightarrow> path \<Rightarrow> py_error + string list" where
  "os_listdir fsys d =
     (case lookup fsys d of
        None \<Rightarrow> Inl FileNotFoundError
      | Some (File c m) \<Rightarrow> Inl NotADirectoryError
      | Some (Dir w) \<Rightarrow> Inr (children fsys d))"

text \<open>\<^verbatim>\<open>os.path.getsize\<close> and \<^verbatim>\<open>os.path.getmtime\<close>. The organizer calls them on entries
  that are not directories; for a directory the platform's value is taken as 0.\<close>

definition os_path_getsize :: "filesystem \<Rightarrow> path \<Rightarrow> py_error + nat" where
  "os_path_getsize fsys p =
     (case lookup fsys p of
        None \<Rightarrow> Inl FileNotFoundError
      | Some (File c m) \<Rightarrow> Inr (length c)
      | Some (Dir w) \<Rightarrow> Inr 0)"

definition os_path_getmtime :: "filesystem \<Rightarrow> path \<Rightarrow> py_error + nat" where
  "os_path_getmtime fsys p =
     (case lookup fsys p of
        None \<Rightarrow> Inl FileNotFoundError
      | Some (File c m) \<Rightarrow> Inr m
      | Some (Dir w) \<Rightarrow> Inr 0)"

definition os_remove :: "filesystem \<Rightarrow> path \<Rightarrow> py_error + filesystem" where
  "os_remove fsys p =
     (case lookup fsys p of
        None \<Rightarrow> Inl FileNotFoundError
      | Some (Dir w) \<Rightarrow> Inl IsADirectoryError
      | Some (File c m) \<Rightarrow>
          (case parent_check fsys p of
             Some e \<Rightarrow> Inl e
           | None \<Rightarrow> Inr (AList.delete p fsys)))"

text \<open>\<^verbatim>\<open>shutil.copy2(src, dst)\<close>: into \<open>dst\<close> when it is a directory; the same file is
  refused; the source is opened first, then the destination is created or truncated;
  \<^verbatim>\<open>copystat\<close> keeps the modification time.\<close>

definition shutil_copy2 :: "filesystem \<Rightarrow> path \<Rightarrow> path \<Rightarrow> py_error + filesystem" where
  "shutil_copy2 fsys src dst =
     (let dst' = (if os_path_isdir fsys dst then dst @ [basename src] else dst) in
      if src = dst' \<and> os_path_exists fsys src then Inl SameFileError
      else case lookup fsys src of
             None \<Rightarrow> Inl FileNotFoundError
           | Some (Dir w) \<Rightarrow> Inl IsADirectoryError
           | Some (File c m) \<Rightarrow>
               (case lookup fsys dst' of
                  Some (Dir w) \<Rightarrow> Inl IsADirectoryError
                | Some (File c' m') \<Rightarrow> Inr (AList.update dst' (File c m) fsys)
                | None \<Rightarrow>
                    (case parent_check fsys dst' of
                       Some e \<Rightarrow> Inl e
                     | None \<Rightarrow> Inr (AList.update dst' (File c m) fsys))))"

text \<open>\<^verbatim>\<open>os.rename(src, dst)\<close> (POSIX): both parents must be writable directories; a file
  replaces a file, a directory replaces an empty directory, and a directory moves with
  everything below it.\<close>

definition move_tree :: "path \<Rightarrow> path \<Rightarrow> filesystem \<Rightarrow> filesystem" where
  "move_tree src dst fsys =
     map (\<lambda>(p, n). if prefix src p then (dst @ drop (length src) p, n) else (p, n)) fsys"

definition os_rename :: "filesystem \<Rightarrow> path \<Rightarrow> path \<Rightarrow> py_error + filesystem" where
  "os_rename fsys src dst =
     (case lookup fsys src of
        None \<Rightarrow> Inl FileNotFoundError
      | Some n \<Rightarrow>
          (case parent_check fsys src of
             Some e \<Rightarrow> Inl e
           | None \<Rightarrow>
               (case parent_check fsys dst of
                  Some e \<Rightarrow> Inl e
                | None \<Rightarrow>
                    if src = dst then Inr fsys
                    else (case n of
                            File c m \<Rightarrow>
                              (if os_path_isdir fsys dst then Inl IsADirectoryError
                               else Inr (AList.update dst (File c m)
                                          (AList.delete src fsys)))
                          | Dir w \<Rightarrow>
                              (if prefix src dst then Inl OSError
                               else if os_path_exists fsys dst \<and> \<not> os_path_isdir fsys dst
                                 then Inl NotADirectoryError
                               else if children fsys dst \<noteq> [] then Inl OSError
                               else Inr (move_tree src dst (AList.delete dst fsys)))))))"

text \<open>\<^verbatim>\<open>shutil.move(src, dst)\<close>: when \<open>dst\<close> is a directory, a rename onto itself if it
  is the source, and otherwise into \<open>dst\<close> (refusing an existing entry there);
  \<^verbatim>\<open>os.rename\<close> first, and when that raises, for a file, \<^verbatim>\<open>copy2\<close> followed by
  \<^verbatim>\<open>os.unlink(src)\<close>, so that a failed move can leave the copy behind. The result is
  the error raised, if any, and the file system as the call leaves it. For a directory
  source the \<^verbatim>\<open>copytree\<close> fallback is not followed: the error of the rename is
  returned.\<close>

definition rename_or_copy ::
  "filesystem \<Rightarrow> path \<Rightarrow> path \<Rightarrow> py_error option \<times> filesystem" where
  "rename_or_copy fsys src real_dst =
     (case os_rename fsys src real_dst of
        Inr fsys' \<Rightarrow> (None, fsys')
      | Inl e \<Rightarrow>
          if os_path_isdir fsys src then (Some e, fsys)
          else (case shutil_copy2 fsys src real_dst of
                  Inl e2 \<Rightarrow> (Some e2, fsys)
                | Inr fsys1 \<Rightarrow>
                    (case os_remove fsys1 src of
                       Inl e3 \<Rightarrow> (Some e3, fsys1)
                     | Inr fsys2 \<Rightarrow> (None, fsys2))))"

definition shutil_move :: "filesystem \<Rightarrow> path \<Rightarrow> path \<Rightarrow> py_error option \<times> filesystem" where
  "shutil_move fsys src dst =
     (if os_path_isdir fsys dst then
        if src = dst then
          (case os_rename fsys src dst of
             Inr fsys' \<Rightarrow> (None, fsys')
           | Inl e \<Rightarrow> (Some e, fsys))
        else if os_path_exists fsys (dst @ [basename src]) then (Some ShutilError, fsys)
        else rename_or_copy fsys src (dst @ [basename src])
      else rename_or_copy fsys src dst)"

section \<open>Strings\<close>

text \<open>\<^verbatim>\<open>str.lower\<close> on ASCII letters, \<^verbatim>\<open>str.endswith\<close>, \<^verbatim>\<open>str(counter)\<close> for a counter
  that is not negative, and \<^verbatim>\<open>str.rfind\<close> for one character.\<close>

definition lower_char :: "char \<Rightarrow> char" where
  "lower_char c =
     (let n = (of_char c :: nat) in if 65 \<le> n \<and> n \<le> 90 then char_of (n + 32) else c)"

definition py_lower :: "string \<Rightarrow> string" where
  "py_lower s = map lower_char s"

definition endswith :: "string \<Rightarrow> string \<Rightarrow> bool" where
  "endswith s suf = suffix suf s"

definition digit_char :: "nat \<Rightarrow> char" where
  "digit_char d = char_of (48 + d)"

function py_str :: "nat \<Rightarrow> string" where
  "py_str n = (if n < 10 then [digit_char n] else py_str (n div 10) @ [digit_char (n mod 10)])"
  by pat_completeness auto
termination
  by (relation "measure id") auto

declare py_str.simps [simp del]

fun index_of :: "char \<Rightarrow> string \<Rightarrow> nat" where
  "index_of c [] = 0"
| "index_of c (x # xs) = (if x = c then 0 else Suc (index_of c xs))"

definition rfind :: "string \<Rightarrow> char \<Rightarrow> int" where
  "rfind s c = (if c \<in> set s then int (length s) - 1 - int (index_of c (rev s)) else - 1)"

text \<open>\<^verbatim>\<open>os.path.splitext\<close> (\<^verbatim>\<open>genericpath._splitext\<close> with separator \<^verbatim>\<open>/\<close>): the extension
  starts at the last dot of the last component, unless only dots precede it there.\<close>

definition splitext :: "string \<Rightarrow> string \<times> string" where
  "splitext p =
     (let sepIndex = rfind p (CHR ''/''); dotIndex = rfind p (CHR ''.'') in
      if dotIndex > sepIndex
         \<and> list_ex (\<lambda>i. p ! i \<noteq> CHR ''.'') [nat (sepIndex + 1)..<nat dotIndex]
      then (take (nat dotIndex) p, drop (nat dotIndex) p)
      else (p, []))"

section \<open>The organizer\<close>

text \<open>What the program takes from outside: the regular expression library (whether
  \<^verbatim>\<open>re.compile\<close> accepts a pattern, and whether \<^verbatim>\<open>re.search\<close> finds a match of it), the
  name of the running script (\<^verbatim>\<open>os.path.basename(__file__)\<close>), the local calendar date
  of a time stamp (\<^verbatim>\<open>fromtimestamp(t).strftime('%Y-%m-%d')\<close>), and whether
  \<^verbatim>\<open>organizer_config.json\<close> can be opened for writing.\<close>

record env =
  re_compile :: "string \<Rightarrow> bool"
  re_search :: "string \<Rightarrow> string \<Rightarrow> bool"
  script_name :: string
  strftime :: "nat \<Rightarrow> string"
  config_writable :: bool

datatype op_kind = Move | Copy

record op_record =
  operation :: op_kind
  source :: path
  destination :: path

record stats_rec =
  total_files :: nat
  organized_files :: nat
  skipped_files :: nat
  categories :: "(string \<times> nat) list"
  total_size :: nat

text \<open>One constructor for each \<^verbatim>\<open>logging\<close> call of class \<^verbatim>\<open>FileOrganizer\<close>.\<close>

datatype log_entry =
    Info_config_saved
  | Error_saving_config
  | Info_skipped_excluded string
  | Info_copied string path
  | Info_moved string path
  | Error_organizing string py_error
  | Error_during_organization py_error
  | Warning_no_operations
  | Info_undone_move path path
  | Info_undone_copy path
  | Error_undoing py_error
  | Info_added_pattern string
  | Error_invalid_pattern string

text \<open>The attributes of a \<^verbatim>\<open>FileOrganizer\<close> (\<open>file_types\<close>, a dictionary in insertion
  order, \<open>operation_history\<close>, \<open>excluded_patterns\<close>, \<open>stats\<close>) and what it acts on: the
  file system, \<^verbatim>\<open>file_organizer.log\<close> and the content of \<^verbatim>\<open>organizer_config.json\<close>.\<close>

record state =
  file_types :: "(string \<times> string list) list"
  operation_history :: "op_record list"
  excluded_patterns :: "string list"
  stats :: stats_rec
  disk :: filesystem
  logfile :: "log_entry list"
  config_file :: "((string \<times> string list) list \<times> string list) option"

definition logging :: "log_entry \<Rightarrow> state \<Rightarrow> state" where
  "logging e s = s\<lparr>logfile := logfile s @ [e]\<rparr>"

subsection \<open>\<^verbatim>\<open>save_config\<close>, \<^verbatim>\<open>is_excluded\<close>, \<^verbatim>\<open>add_exclude_pattern\<close>\<close>


text \<open>\<^verbatim>\<open>re.search(pattern, filename)\<close> compiles the pattern first and raises \<^verbatim>\<open>re.error\<close>
  when that fails.\<close>

fun is_excluded_loop :: "env \<Rightarrow> string list \<Rightarrow> string \<Rightarrow> py_error + bool" where
  "is_excluded_loop ev [] filename = Inr False"
| "is_excluded_loop ev (pattern # rest) filename =
     (if \<not> re_compile ev pattern then Inl ReError
      else if re_search ev pattern filename then Inr True
      else is_excluded_loop ev rest filename)"

definition is_excluded :: "env \<Rightarrow> state \<Rightarrow> string \<Rightarrow> py_error + bool" where
  "is_excluded ev s filename = is_excluded_loop ev (excluded_patterns s) filename"


subsection \<open>\<^verbatim>\<open>organize_files\<close>\<close>

definition reset_stats :: "state \<Rightarrow> state" where
  "reset_stats s =
     s\<lparr>stats := \<lparr>total_files = 0, organized_files = 0, skipped_files = 0,
                 categories = map (\<lambda>category. (category, 0))
                                (remdups (map fst (file_types s) @ [''Others''])),
                 total_size = 0\<rparr>\<rparr>"

fun create_folders :: "filesystem \<Rightarrow> path \<Rightarrow> string list \<Rightarrow> py_error option \<times> filesystem" where
  "create_folders fsys directory [] = (None, fsys)"
| "create_folders fsys directory (folder # rest) =
     (let folder_path = directory @ [folder] in
      if \<not> os_path_exists fsys folder_path then
        (case os_makedirs fsys folder_path of
           Inl e \<Rightarrow> (Some e, fsys)
         | Inr fsys' \<Rightarrow> create_folders fsys' directory rest)
      else create_folders fsys directory rest)"

text \<open>Lines 132 to 141: the first category, in the order of the dictionary, one of
  whose extensions ends the lower-cased file name; \<^verbatim>\<open>if not destination_folder\<close> sends
  \<^verbatim>\<open>None\<close> and the empty name to \<^verbatim>\<open>Others\<close>.\<close>

fun find_folder :: "string \<Rightarrow> (string \<times> string list) list \<Rightarrow> string option" where
  "find_folder filename [] = None"
| "find_folder filename ((folder, extensions) # rest) =
     (if list_ex (\<lambda>ext. endswith (py_lower filename) ext) extensions then Some folder
      else find_folder filename rest)"

definition classify :: "string \<Rightarrow> (string \<times> string list) list \<Rightarrow> string" where
  "classify filename ftypes =
     (case find_folder filename ftypes of
        None \<Rightarrow> ''Others''
      | Some folder \<Rightarrow> if folder = [] then ''Others'' else folder)"

text \<open>Lines 143 to 156: the folder the file goes to, after the date subfolder has been
  created when it is asked for and missing.\<close>

definition destination_dir ::
  "env \<Rightarrow> path \<Rightarrow> bool \<Rightarrow> string \<Rightarrow> path \<Rightarrow> filesystem \<Rightarrow> py_error + (path \<times> filesystem)" where
  "destination_dir ev directory organize_by_date destination_folder file_path fsys =
     (if organize_by_date then
        (case os_path_getmtime fsys file_path of
           Inl e \<Rightarrow> Inl e
         | Inr mod_time \<Rightarrow>
             (let date_folder = directory @ [destination_folder, strftime ev mod_time] in
              if \<not> os_path_exists fsys date_folder then
                (case os_makedirs fsys date_folder of
                   Inl e \<Rightarrow> Inl e
                 | Inr fsys' \<Rightarrow> Inr (date_folder, fsys'))
              else Inr (date_folder, fsys)))
      else Inr (directory @ [destination_folder], fsys))"

text \<open>Lines 171 to 177: the \<^verbatim>\<open>while\<close> loop over the counter. \<open>candidate\<close> is the path
  built from \<^verbatim>\<open>f"{base}_{counter}{extension}"\<close>.\<close>

definition candidate :: "path \<Rightarrow> string \<Rightarrow> string \<Rightarrow> nat \<Rightarrow> path" where
  "candidate dest_dir base extension counter =
     dest_dir @ [base @ ''_'' @ py_str counter @ extension]"

function conflict_loop ::
  "filesystem \<Rightarrow> path \<Rightarrow> string \<Rightarrow> string \<Rightarrow> path \<Rightarrow> nat \<Rightarrow> path" where
  "conflict_loop fsys dest_dir base extension destination_path counter =
     (if os_path_exists fsys destination_path
      then conflict_loop fsys dest_dir base extension
             (candidate dest_dir base extension counter) (counter + 1)
      else destination_path)"
  by pat_completeness auto

definition resolve_conflict :: "filesystem \<Rightarrow> path \<Rightarrow> string \<Rightarrow> path \<Rightarrow> path" where
  "resolve_conflict fsys dest_dir filename destination_path =
     (if os_path_exists fsys destination_path then
        (case splitext filename of
           (base, extension) \<Rightarrow> conflict_loop fsys dest_dir base extension destination_path 1)
      else destination_path)"

definition dict_get :: "(string \<times> nat) list \<Rightarrow> string \<Rightarrow> nat \<Rightarrow> nat" where
  "dict_get d k dflt = (case map_of d k of None \<Rightarrow> dflt | Some v \<Rightarrow> v)"

definition record_success :: "op_record \<Rightarrow> string \<Rightarrow> state \<Rightarrow> state" where
  "record_success op destination_folder s =
     s\<lparr>operation_history := operation_history s @ [op],
       stats := (stats s)\<lparr>
         organized_files := organized_files (stats s) + 1,
         categories := AList.update destination_folder
                         (dict_get (categories (stats s)) destination_folder 0 + 1)
                         (categories (stats s))\<rparr>\<rparr>"

definition count_skipped :: "state \<Rightarrow> state" where
  "count_skipped s = s\<lparr>stats := (stats s)\<lparr>skipped_files := skipped_files (stats s) + 1\<rparr>\<rparr>"

text \<open>Lines 159 to 197: the \<^verbatim>\<open>try\<close> block of one file. An error the handler does not
  catch is returned beside the state.\<close>

definition transfer ::
  "bool \<Rightarrow> string \<Rightarrow> string \<Rightarrow> path \<Rightarrow> path \<Rightarrow> path \<Rightarrow> state \<Rightarrow> py_error option \<times> state" where
  "transfer copy_instead_of_move filename destination_folder file_path dest_dir
       destination_path s =
     (let final = resolve_conflict (disk s) dest_dir filename destination_path;
          op = \<lparr>operation = (if copy_instead_of_move then Copy else Move),
                source = file_path, destination = final\<rparr>;
          (err, fsys') =
            (if copy_instead_of_move then
               (case shutil_copy2 (disk s) file_path final of
                  Inl e \<Rightarrow> (Some e, disk s)
                | Inr f \<Rightarrow> (None, f))
             else shutil_move (disk s) file_path final)
      in case err of
           None \<Rightarrow>
             (None, record_success op destination_folder
                      (logging (if copy_instead_of_move then Info_copied filename final
                                else Info_moved filename final)
                         (s\<lparr>disk := fsys'\<rparr>)))
         | Some e \<Rightarrow>
             if is_OSError e
             then (None, logging (Error_organizing filename e) (count_skipped (s\<lparr>disk := fsys'\<rparr>)))
             else (Some e, s\<lparr>disk := fsys'\<rparr>))"

text \<open>Lines 113 to 197: the body of the loop for one directory entry.\<close>

definition organize_entry ::
  "env \<Rightarrow> path \<Rightarrow> bool \<Rightarrow> bool \<Rightarrow> state \<Rightarrow> string \<Rightarrow> py_error option \<times> state" where
  "organize_entry ev directory organize_by_date copy_instead_of_move s filename =
     (let file_path = directory @ [filename] in
      if os_path_isdir (disk s) file_path \<or> filename = script_name ev
         \<or> endswith filename ''.log''
      then (None, s)
      else case is_excluded ev s filename of
             Inl e \<Rightarrow> (Some e, s)
           | Inr True \<Rightarrow> (None, logging (Info_skipped_excluded filename) (count_skipped s))
           | Inr False \<Rightarrow>
               (let s1 = s\<lparr>stats := (stats s)\<lparr>total_files := total_files (stats s) + 1\<rparr>\<rparr> in
                case os_path_getsize (disk s1) file_path of
                  Inl e \<Rightarrow> (Some e, s1)
                | Inr file_size \<Rightarrow>
                    (let s2 = s1\<lparr>stats := (stats s1)\<lparr>total_size :=
                                   total_size (stats s1) + file_size\<rparr>\<rparr>;
                         destination_folder = classify filename (file_types s2)
                     in case destination_dir ev directory organize_by_date
                               destination_folder file_path (disk s2) of
                          Inl e \<Rightarrow> (Some e, s2)
                        | Inr (dest_dir, fsys') \<Rightarrow>
                            transfer copy_instead_of_move filename destination_folder
                              file_path dest_dir (dest_dir @ [filename])
                              (s2\<lparr>disk := fsys'\<rparr>))))"

fun organize_loop ::
  "env \<Rightarrow> path \<Rightarrow> bool \<Rightarrow> bool \<Rightarrow> state \<Rightarrow> string list \<Rightarrow> py_error option \<times> state" where
  "organize_loop ev directory organize_by_date copy_instead_of_move s [] = (None, s)"
| "organize_loop ev directory organize_by_date copy_instead_of_move s (filename # rest) =
     (case organize_entry ev directory organize_by_date copy_instead_of_move s filename of
        (Some e, s') \<Rightarrow> (Some e, s')
      | (None, s') \<Rightarrow>
          organize_loop ev directory organize_by_date copy_instead_of_move s' rest)"

text \<open>The whole method: an exception anywhere is logged and raised again, with the state
  as it is at that moment.\<close>

definition organize_files ::
  "env \<Rightarrow> path \<Rightarrow> bool \<Rightarrow> bool \<Rightarrow> state \<Rightarrow> (py_error + stats_rec) \<times> state" where
  "organize_files ev directory organize_by_date copy_instead_of_move s =
     (let s0 = reset_stats s in
      case create_folders (disk s0) directory (map fst (file_types s0)) of
        (Some e, fsys1) \<Rightarrow> (Inl e, logging (Error_during_organization e) (s0\<lparr>disk := fsys1\<rparr>))
      | (None, fsys1) \<Rightarrow>
          (case create_folders fsys1 directory [''Others''] of
             (Some e, fsys2) \<Rightarrow>
               (Inl e, logging (Error_during_organization e) (s0\<lparr>disk := fsys2\<rparr>))
           | (None, fsys2) \<Rightarrow>
               (case os_listdir fsys2 directory of
                  Inl e \<Rightarrow> (Inl e, logging (Error_during_organization e) (s0\<lparr>disk := fsys2\<rparr>))
                | Inr names \<Rightarrow>
                    (case organize_loop ev directory organize_by_date copy_instead_of_move
                            (s0\<lparr>disk := fsys2\<rparr>) names of
                       (Some e, s') \<Rightarrow> (Inl e, logging (Error_during_organization e) s')
                     | (None, s') \<Rightarrow> (Inr (stats s'), s')))))"

subsection \<open>\<^verbatim>\<open>undo_last_operation\<close>\<close>

definition undo_last_operation :: "state \<Rightarrow> bool \<times> state" where
  "undo_last_operation s =
     (if operation_history s = [] then (False, logging Warning_no_operations s)
      else
        (let op = last (operation_history s);
             s1 = s\<lparr>operation_history := butlast (operation_history s)\<rparr>
         in case operation op of
              Move \<Rightarrow>
                if os_path_exists (disk s1) (destination op) then
                  (case shutil_move (disk s1) (destination op) (source op) of
                     (None, fsys') \<Rightarrow>
                       (True, logging (Info_undone_move (destination op) (source op))
                                (s1\<lparr>disk := fsys'\<rparr>))
                   | (Some e, fsys') \<Rightarrow> (False, logging (Error_undoing e) (s1\<lparr>disk := fsys'\<rparr>)))
                else (False, s1)
            | Copy \<Rightarrow>
                if os_path_exists (disk s1) (destination op) then
                  (case os_remove (disk s1) (destination op) of
                     Inr fsys' \<Rightarrow>
                       (True, logging (Info_undone_copy (destination op)) (s1\<lparr>disk := fsys'\<rparr>))
                   | Inl e \<Rightarrow> (False, logging (Error_undoing e) s1))
                else (False, s1)))"

subsection \<open>\<^verbatim>\<open>format_size\<close> and \<^verbatim>\<open>get_summary\<close>\<close>







section \<open>Example data\<close>

text \<open>A regular expression library cut down to what the examples use: a pattern of
  letters is found where it occurs in the name, and the pattern \<^verbatim>\<open>[\<close> does not compile.\<close>

definition demo_env :: env where
  "demo_env = \<lparr>re_compile = (\<lambda>p. p \<noteq> ''[''), re_search = (\<lambda>p s. sublist p s),
      script_name = ''File_Organizer.py'', strftime = (\<lambda>t. ''2025-03-14''),
      config_writable = True\<rparr>"

definition demo_types :: "(string \<times> string list) list" where
  "demo_types = [(''Photos'', [''.jpg'', ''.png'']), (''Documents'', [''.pdf'', ''.txt''])]"

definition empty_stats :: stats_rec where
  "empty_stats = \<lparr>total_files = 0, organized_files = 0, skipped_files = 0, categories = [], total_size = 0\<rparr>"

definition demo_state :: "filesystem \<Rightarrow> state" where
  "demo_state fsys = \<lparr>file_types = demo_types, operation_history = [], excluded_patterns = [],
      stats = empty_stats, disk = fsys, logfile = [], config_file = None\<rparr>"

definition fs1 :: filesystem where
  "fs1 = [([''d''], Dir True), ([''d'', ''a.jpg''], File ''aaaa'' 5), ([''d'', ''b.txt''], File ''bb'' 6),
          ([''d'', ''run.log''], File ''c'' 7)]"



definition fs2 :: filesystem where
  "fs2 = [([''d''], Dir True), ([''d'', ''draft_tmp.txt''], File ''xy'' 3)]"

definition fs3 :: filesystem where
  "fs3 = [([''d''], Dir True), ([''d'', ''Documents''], Dir True),
          ([''d'', ''Documents'', ''report.pdf''], File ''first'' 1),
          ([''d'', ''report.pdf''], File ''second'' 2)]"

definition fs4 :: filesystem where
  "fs4 = [([''d''], Dir False), ([''d'', ''Documents''], Dir True),
          ([''d'', ''Documents'', ''a.txt''], File ''hello'' 1)]"

definition fs5 :: filesystem where
  "fs5 = [([''d''], Dir True), ([''d'', ''Documents''], Dir True),
          ([''d'', ''Documents'', ''a.txt''], File ''hello'' 1)]"

definition moved_a :: op_record where
  "moved_a = \<lparr>operation = Move, source = [''d'', ''a.txt''],
               destination = [''d'', ''Documents'', ''a.txt'']\<rparr>"

definition after_move :: state where
  "after_move = (demo_state fs5)\<lparr>operation_history := [moved_a]\<rparr>"

text \<open>Vocabulary for the statistics of a run: the state after lines 126 to 130 have counted
  a file, the log entries of a failed transfer and of an exclusion, and the balance
  between the statistics and the log entries written between two states.\<close>

definition counted :: "nat \<Rightarrow> state \<Rightarrow> state" where
  "counted file_size s =
     s\<lparr>stats := (stats s)\<lparr>total_files := total_files (stats s) + 1,
                            total_size := total_size (stats s) + file_size\<rparr>\<rparr>"












section \<open>The conflict loop ends\<close>

text \<open>\<^verbatim>\<open>str\<close> is injective on counters, so the candidates are pairwise different, and a
  finite file system holds finitely many of them.\<close>

lemma digit_char_inj: "a < 10 \<Longrightarrow> b < 10 \<Longrightarrow> digit_char a = digit_char b \<Longrightarrow> a = b"
  unfolding digit_char_def by simp

lemma py_str_nonempty: "py_str n \<noteq> []"
  by (subst py_str.simps) simp

lemma py_str_small: "n < 10 \<Longrightarrow> py_str n = [digit_char n]"
  by (subst py_str.simps) simp

lemma py_str_big: "\<not> n < 10 \<Longrightarrow> py_str n = py_str (n div 10) @ [digit_char (n mod 10)]"
  by (subst py_str.simps) simp

lemma py_str_inj: "py_str a = py_str b \<Longrightarrow> a = b"
proof (induction a arbitrary: b rule: py_str.induct)
  case (1 n)
  show ?case
  proof (cases "n < 10")
    case small: True
    show ?thesis
    proof (cases "b < 10")
      case True
      with small 1(2) show ?thesis
        by (simp add: py_str_small digit_char_inj)
    next
      case False
      with small 1(2) show ?thesis
        using py_str_nonempty [of "b div 10"] by (auto simp add: py_str_small py_str_big)
    qed
  next
    case big: False
    show ?thesis
    proof (cases "b < 10")
      case True
      with big 1(2) show ?thesis
        using py_str_nonempty [of "n div 10"] by (auto simp add: py_str_small py_str_big)
    next
      case False
      with big 1(2) have e: "py_str (n div 10) = py_str (b div 10)"
        and d: "digit_char (n mod 10) = digit_char (b mod 10)"
        by (simp_all add: py_str_big)
      from 1(1) [OF big e] have "n div 10 = b div 10" .
      moreover from d have "n mod 10 = b mod 10"
        by (intro digit_char_inj) simp_all
      ultimately show ?thesis
        by (metis div_mult_mod_eq)
    qed
  qed
qed

lemma candidate_inj: "candidate d b e j = candidate d b e k \<Longrightarrow> j = k"
  by (simp add: candidate_def py_str_inj)

lemma exists_iff_key: "p \<noteq> [] \<Longrightarrow> os_path_exists fsys p \<longleftrightarrow> p \<in> fst ` set fsys"
  by (simp add: os_path_exists_def lookup_def map_of_eq_None_iff)

lemma occupied_step:
  "2 * card (fst ` set fsys \<inter> candidate d b e ` {Suc c..})
     + (if os_path_exists fsys (candidate d b e c) then 1 else 0)
   < 2 * card (fst ` set fsys \<inter> candidate d b e ` {c..}) + 1"
proof -
  let ?S = "\<lambda>c. fst ` set fsys \<inter> candidate d b e ` {c..}"
  have fin: "finite (?S c)" by simp
  have sub: "?S (Suc c) \<subseteq> ?S c" by auto
  show ?thesis
  proof (cases "os_path_exists fsys (candidate d b e c)")
    case True
    then have "candidate d b e c \<in> fst ` set fsys"
      by (simp add: exists_iff_key candidate_def)
    then have in_c: "candidate d b e c \<in> ?S c" by auto
    have "candidate d b e c \<notin> ?S (Suc c)"
      using candidate_inj by fastforce
    with in_c sub have "?S (Suc c) \<subset> ?S c" by blast
    with fin have "card (?S (Suc c)) < card (?S c)" by (rule psubset_card_mono)
    with True show ?thesis by simp
  next
    case False
    from fin sub have "card (?S (Suc c)) \<le> card (?S c)" by (rule card_mono)
    with False show ?thesis by simp
  qed
qed

termination conflict_loop
proof (relation "measure (\<lambda>(fsys, d, b, e, p, c).
          2 * card (fst ` set fsys \<inter> candidate d b e ` {c..})
            + (if os_path_exists fsys p then 1 else 0))", goal_cases)
  case 1
  show ?case by simp
next
  case (2 fsys d b e p c)
  with occupied_step [of fsys d b e c] show ?case
    by simp
qed

declare conflict_loop.simps [simp del]

section \<open>Entries the run passes over\<close>

text \<open>Claim C9. A directory entry that is a subdirectory, or is named like the running
  script, or whose name ends in \<^verbatim>\<open>.log\<close>, is passed over by the loop body: no error, and
  the state after it, with every field of the statistics, is the state before it.\<close>

theorem special_entries_leave_state:
  "os_path_isdir (disk s) (directory @ [filename]) \<or> filename = script_name ev
     \<or> endswith filename ''.log''
   \<Longrightarrow> organize_entry ev directory organize_by_date copy_instead_of_move s filename = (None, s)"
  by (simp add: organize_entry_def)

theorem special_entries_leave_state_witness:
  "endswith ''run.log'' ''.log''
   \<and> organize_entry demo_env [''d''] False False (demo_state fs1) ''run.log'' = (None, demo_state fs1)"
proof -
  have h: "endswith ''run.log'' ''.log''" by code_simp
  then show ?thesis
    using special_entries_leave_state [where filename = "''run.log''" and ev = demo_env
        and s = "demo_state fs1" and directory = "[''d'']" and organize_by_date = False
        and copy_instead_of_move = False]
    by simp
qed

section \<open>The size in the summary\<close>





section \<open>Classification\<close>








section \<open>The exclusion filter\<close>

lemma is_excluded_loop_iff:
  "\<forall>p\<in>set ps. re_compile ev p
   \<Longrightarrow> is_excluded_loop ev ps f = Inr (\<exists>p\<in>set ps. re_search ev p f)"
  by (induction ps) auto

text \<open>Claim C5. With patterns that compile (the only ones \<^verbatim>\<open>add_exclude_pattern\<close> stores),
  \<^verbatim>\<open>is_excluded\<close> returns true exactly when \<^verbatim>\<open>re.search\<close> finds a match of some pattern in
  the name; and a file the filter matches in the loop is counted in \<open>skipped_files\<close> and
  nowhere else, and stays where it is: the other statistics, the file system and the
  history are unchanged.\<close>

theorem excluded_files_are_skipped:
  "((\<forall>p\<in>set (excluded_patterns s). re_compile ev p)
      \<longrightarrow> is_excluded ev s f = Inr (\<exists>p\<in>set (excluded_patterns s). re_search ev p f))
   \<and> (\<not> os_path_isdir (disk s) (directory @ [f]) \<and> f \<noteq> script_name ev
        \<and> \<not> endswith f ''.log'' \<and> is_excluded ev s f = Inr True
      \<longrightarrow> (\<exists>s'. organize_entry ev directory organize_by_date copy_instead_of_move s f = (None, s')
            \<and> skipped_files (stats s') = skipped_files (stats s) + 1
            \<and> total_files (stats s') = total_files (stats s)
            \<and> organized_files (stats s') = organized_files (stats s)
            \<and> total_size (stats s') = total_size (stats s)
            \<and> categories (stats s') = categories (stats s)
            \<and> disk s' = disk s
            \<and> operation_history s' = operation_history s))"
  by (simp add: is_excluded_def is_excluded_loop_iff organize_entry_def logging_def
      count_skipped_def)

theorem excluded_files_are_skipped_witness:
  "list_all (re_compile demo_env)
     (excluded_patterns ((demo_state fs2)\<lparr>excluded_patterns := [''tmp'']\<rparr>))
   \<and> is_excluded demo_env ((demo_state fs2)\<lparr>excluded_patterns := [''tmp'']\<rparr>) ''draft_tmp.txt''
       = Inr True
   \<and> \<not> os_path_isdir fs2 [''d'', ''draft_tmp.txt'']
   \<and> ''draft_tmp.txt'' \<noteq> script_name demo_env
   \<and> \<not> endswith ''draft_tmp.txt'' ''.log''
   \<and> (\<exists>s'. organize_entry demo_env [''d''] False False
               ((demo_state fs2)\<lparr>excluded_patterns := [''tmp'']\<rparr>) ''draft_tmp.txt'' = (None, s')
          \<and> skipped_files (stats s') = 1 \<and> total_files (stats s') = 0 \<and> disk s' = fs2)"
proof -
  let ?s = "(demo_state fs2)\<lparr>excluded_patterns := [''tmp'']\<rparr>"
  have a: "\<forall>p\<in>set (excluded_patterns ?s). re_compile demo_env p"
    by (simp add: demo_state_def demo_env_def)
  have b: "is_excluded demo_env ?s ''draft_tmp.txt'' = Inr True" by code_simp
  have c: "\<not> os_path_isdir (disk ?s) ([''d''] @ [''draft_tmp.txt''])" by code_simp
  have d: "''draft_tmp.txt'' \<noteq> script_name demo_env" by code_simp
  have e: "\<not> endswith ''draft_tmp.txt'' ''.log''" by code_simp
  have f: "skipped_files (stats ?s) = 0" "total_files (stats ?s) = 0" "disk ?s = fs2"
    by (simp_all add: demo_state_def empty_stats_def)
  from excluded_files_are_skipped [where s = ?s and ev = demo_env and f = "''draft_tmp.txt''"
      and directory = "[''d'']" and organize_by_date = False and copy_instead_of_move = False]
    a b c d e f
  show ?thesis by (auto simp: list_all_iff)
qed

section \<open>Adding an exclusion pattern\<close>




section \<open>Facts about the file system operations\<close>

lemma lookup_update:
  "lookup (AList.update k v fsys) p =
     (if p = [] then Some (Dir True) else if p = k then Some v else lookup fsys p)"
  by (simp add: lookup_def update_conv')

lemma lookup_delete:
  "lookup (AList.delete k fsys) p =
     (if p = [] then Some (Dir True) else if p = k then None else lookup fsys p)"
  by (simp add: lookup_def delete_conv')

lemma lookup_root [simp]: "lookup fsys [] = Some (Dir True)"
  by (simp add: lookup_def)

lemma not_exists_iff: "\<not> os_path_exists fsys p \<longleftrightarrow> lookup fsys p = None"
  by (simp add: os_path_exists_def)

lemma not_exists_not_isdir: "\<not> os_path_exists fsys p \<Longrightarrow> \<not> os_path_isdir fsys p"
  by (simp add: os_path_exists_def os_path_isdir_def)

lemma file_not_isdir: "lookup fsys p = Some (File c m) \<Longrightarrow> \<not> os_path_isdir fsys p"
  by (simp add: os_path_isdir_def)

lemma copy2_fresh:
  assumes "\<not> os_path_exists fsys dst" and "shutil_copy2 fsys src dst = Inr fsys'"
  shows "\<exists>c m. lookup fsys src = Some (File c m)
           \<and> (\<forall>p. lookup fsys' p = (if p = dst then Some (File c m) else lookup fsys p))"
proof -
  from assms(1) have nd: "\<not> os_path_isdir fsys dst" and none: "lookup fsys dst = None"
    by (simp_all add: not_exists_not_isdir not_exists_iff)
  from none have ne: "dst \<noteq> []" by auto
  from assms(2) nd none show ?thesis
    by (auto simp: shutil_copy2_def lookup_update ne split: if_splits option.splits node.splits)
qed

lemma rename_file_fresh:
  assumes "lookup fsys src = Some (File c m)" and "\<not> os_path_exists fsys dst"
    and "os_rename fsys src dst = Inr fsys'"
  shows "\<forall>p. lookup fsys' p =
           (if p = dst then Some (File c m) else if p = src then None else lookup fsys p)"
proof -
  from assms(2) have nd: "\<not> os_path_isdir fsys dst" and none: "lookup fsys dst = None"
    by (simp_all add: not_exists_not_isdir not_exists_iff)
  from none have ne: "dst \<noteq> []" by auto
  from assms(1) have ns: "src \<noteq> []" by auto
  from assms(1) none have diff: "src \<noteq> dst" by auto
  from assms(3) assms(1) nd diff have "fsys' = AList.update dst (File c m) (AList.delete src fsys)"
    by (auto simp: os_rename_def split: option.splits if_splits)
  then show ?thesis
    using ne ns none by (auto simp: lookup_update lookup_delete)
qed

lemma rename_file_fresh_ok:
  assumes "lookup fsys src = Some (File c m)" and "\<not> os_path_exists fsys dst"
    and "parent_check fsys src = None" and "parent_check fsys dst = None"
  shows "\<exists>fsys'. os_rename fsys src dst = Inr fsys'"
proof -
  from assms(2) have nd: "\<not> os_path_isdir fsys dst" by (simp add: not_exists_not_isdir)
  from assms(1,3,4) nd show ?thesis
    by (simp add: os_rename_def)
qed

lemma remove_file:
  assumes "os_remove fsys p = Inr fsys'"
  shows "\<forall>q. lookup fsys' q = (if q = p then None else lookup fsys q)"
proof -
  from assms have ne: "p \<noteq> []"
    by (auto simp: os_remove_def split: option.splits node.splits)
  from assms have "fsys' = AList.delete p fsys"
    by (auto simp: os_remove_def split: option.splits node.splits)
  then show ?thesis using ne by (auto simp: lookup_delete)
qed

lemma move_file_fresh:
  assumes src: "lookup fsys src = Some (File c m)" and fresh: "\<not> os_path_exists fsys dst"
    and mv: "shutil_move fsys src dst = (err, fsys')"
  shows "(err = None \<longrightarrow> (\<forall>p. lookup fsys' p =
            (if p = dst then Some (File c m) else if p = src then None else lookup fsys p)))
       \<and> (\<forall>p. p \<noteq> dst \<longrightarrow> p \<noteq> src \<longrightarrow> lookup fsys' p = lookup fsys p)
       \<and> (err \<noteq> None \<longrightarrow> lookup fsys' src = Some (File c m))"
proof -
  from fresh have nd: "\<not> os_path_isdir fsys dst" by (simp add: not_exists_not_isdir)
  from src have nsd: "\<not> os_path_isdir fsys src" by (rule file_not_isdir)
  from src fresh have diff: "src \<noteq> dst" by (auto simp: os_path_exists_def)
  show ?thesis
  proof (cases "os_rename fsys src dst")
    case (Inr f)
    with mv nd have "err = None" "fsys' = f" by (simp_all add: shutil_move_def rename_or_copy_def)
    with rename_file_fresh [OF src fresh Inr] show ?thesis by simp
  next
    case (Inl e)
    show ?thesis
    proof (cases "shutil_copy2 fsys src dst")
      case c: (Inl e2)
      with mv nd nsd Inl have "err = Some e2" "fsys' = fsys" by (simp_all add: shutil_move_def rename_or_copy_def)
      with src show ?thesis by simp
    next
      case c: (Inr f1)
      from copy2_fresh [OF fresh c] src
      have f1: "\<forall>p. lookup f1 p = (if p = dst then Some (File c m) else lookup fsys p)"
        by auto
      show ?thesis
      proof (cases "os_remove f1 src")
        case r: (Inl e3)
        with mv nd nsd Inl c have "err = Some e3" "fsys' = f1" by (simp_all add: shutil_move_def rename_or_copy_def)
        with f1 src diff show ?thesis by simp
      next
        case r: (Inr f2)
        with mv nd nsd Inl c have "err = None" "fsys' = f2" by (simp_all add: shutil_move_def rename_or_copy_def)
        with remove_file [OF r] f1 diff show ?thesis by auto
      qed
    qed
  qed
qed





section \<open>Conflict resolution\<close>

lemma conflict_loop_spec:
  "\<not> os_path_exists fsys (conflict_loop fsys d b e p c)
   \<and> (if os_path_exists fsys p
       then \<exists>k\<ge>c. conflict_loop fsys d b e p c = candidate d b e k
              \<and> (\<forall>j. c \<le> j \<and> j < k \<longrightarrow> os_path_exists fsys (candidate d b e j))
       else conflict_loop fsys d b e p c = p)"
proof (induction fsys d b e p c rule: conflict_loop.induct)
  case (1 fsys d b e p c)
  show ?case
  proof (cases "os_path_exists fsys p")
    case False
    then show ?thesis by (simp add: conflict_loop.simps)
  next
    case True
    let ?r = "conflict_loop fsys d b e (candidate d b e c) (c + 1)"
    have eq: "conflict_loop fsys d b e p c = ?r"
      using True by (subst conflict_loop.simps) simp
    from 1 [OF True] have free: "\<not> os_path_exists fsys ?r"
      and ih: "if os_path_exists fsys (candidate d b e c)
         then \<exists>k\<ge>c + 1. ?r = candidate d b e k
              \<and> (\<forall>j. c + 1 \<le> j \<and> j < k \<longrightarrow> os_path_exists fsys (candidate d b e j))
         else ?r = candidate d b e c"
      by blast+
    have "\<exists>k\<ge>c. ?r = candidate d b e k
              \<and> (\<forall>j. c \<le> j \<and> j < k \<longrightarrow> os_path_exists fsys (candidate d b e j))"
    proof (cases "os_path_exists fsys (candidate d b e c)")
      case False
      with ih have "?r = candidate d b e c" by simp
      then show ?thesis by auto
    next
      case occ: True
      with ih obtain k where k: "k \<ge> c + 1" "?r = candidate d b e k"
        "\<forall>j. c + 1 \<le> j \<and> j < k \<longrightarrow> os_path_exists fsys (candidate d b e j)"
        by auto
      have "\<forall>j. c \<le> j \<and> j < k \<longrightarrow> os_path_exists fsys (candidate d b e j)"
      proof (intro allI impI)
        fix j assume j: "c \<le> j \<and> j < k"
        show "os_path_exists fsys (candidate d b e j)"
        proof (cases "j = c")
          case True with occ show ?thesis by simp
        next
          case False with j k(3) show ?thesis by simp
        qed
      qed
      with k show ?thesis by (intro exI [of _ k]) simp
    qed
    with free True eq show ?thesis by simp
  qed
qed

lemma splitext_append: "splitext f = (b, e) \<Longrightarrow> b @ e = f"
  by (auto simp: splitext_def Let_def split: if_splits)

lemma resolve_conflict_spec:
  assumes "splitext filename = (base, ext)"
  shows "\<not> os_path_exists fsys (resolve_conflict fsys d filename p)
   \<and> (if os_path_exists fsys p
       then \<exists>k\<ge>1. resolve_conflict fsys d filename p = candidate d base ext k
              \<and> (\<forall>j. 1 \<le> j \<and> j < k \<longrightarrow> os_path_exists fsys (candidate d base ext j))
       else resolve_conflict fsys d filename p = p)"
proof -
  have "resolve_conflict fsys d filename p =
      (if os_path_exists fsys p then conflict_loop fsys d base ext p 1 else p)"
    by (simp add: resolve_conflict_def assms del: One_nat_def)
  moreover have "os_path_exists fsys p \<or> conflict_loop fsys d base ext p 1 = p"
    using conflict_loop_spec [of fsys d base ext p 1] by presburger
  ultimately have "resolve_conflict fsys d filename p = conflict_loop fsys d base ext p 1"
    by presburger
  with conflict_loop_spec [of fsys d base ext p 1] show ?thesis
    by presburger
qed

section \<open>The transfer of one file\<close>

lemma logging_fields [simp]:
  "disk (logging e s) = disk s" "operation_history (logging e s) = operation_history s"
  "stats (logging e s) = stats s" "logfile (logging e s) = logfile s @ [e]"
  "file_types (logging e s) = file_types s" "excluded_patterns (logging e s) = excluded_patterns s"
  "config_file (logging e s) = config_file s"
  by (simp_all add: logging_def)

lemma count_skipped_fields [simp]:
  "disk (count_skipped s) = disk s" "operation_history (count_skipped s) = operation_history s"
  "logfile (count_skipped s) = logfile s" "file_types (count_skipped s) = file_types s"
  "excluded_patterns (count_skipped s) = excluded_patterns s"
  "config_file (count_skipped s) = config_file s"
  "skipped_files (stats (count_skipped s)) = skipped_files (stats s) + 1"
  "total_files (stats (count_skipped s)) = total_files (stats s)"
  "organized_files (stats (count_skipped s)) = organized_files (stats s)"
  "total_size (stats (count_skipped s)) = total_size (stats s)"
  "categories (stats (count_skipped s)) = categories (stats s)"
  by (simp_all add: count_skipped_def)

lemma record_success_fields [simp]:
  "disk (record_success op folder s) = disk s"
  "operation_history (record_success op folder s) = operation_history s @ [op]"
  "logfile (record_success op folder s) = logfile s"
  "file_types (record_success op folder s) = file_types s"
  "excluded_patterns (record_success op folder s) = excluded_patterns s"
  "config_file (record_success op folder s) = config_file s"
  "skipped_files (stats (record_success op folder s)) = skipped_files (stats s)"
  "total_files (stats (record_success op folder s)) = total_files (stats s)"
  "organized_files (stats (record_success op folder s)) = organized_files (stats s) + 1"
  "total_size (stats (record_success op folder s)) = total_size (stats s)"
  "categories (stats (record_success op folder s)) =
     AList.update folder (dict_get (categories (stats s)) folder 0 + 1) (categories (stats s))"
  by (simp_all add: record_success_def)

text \<open>The three ways the \<^verbatim>\<open>try\<close> block of one file can end.\<close>

lemma transfer_cases:
  assumes "transfer cp filename folder file_path dest_dir nominal s = (r, s')"
  obtains
    (ok) fsys' where
      "(if cp then shutil_copy2 (disk s) file_path
                     (resolve_conflict (disk s) dest_dir filename nominal) = Inr fsys'
        else shutil_move (disk s) file_path
               (resolve_conflict (disk s) dest_dir filename nominal) = (None, fsys'))"
      "r = None"
      "s' = record_success
             \<lparr>operation = (if cp then Copy else Move), source = file_path,
                destination = resolve_conflict (disk s) dest_dir filename nominal\<rparr> folder
             (logging (if cp then Info_copied filename
                                    (resolve_conflict (disk s) dest_dir filename nominal)
                       else Info_moved filename
                              (resolve_conflict (disk s) dest_dir filename nominal))
                (s\<lparr>disk := fsys'\<rparr>))"
  | (caught) e fsys' where
      "(if cp then shutil_copy2 (disk s) file_path
                     (resolve_conflict (disk s) dest_dir filename nominal) = Inl e \<and> fsys' = disk s
        else shutil_move (disk s) file_path
               (resolve_conflict (disk s) dest_dir filename nominal) = (Some e, fsys'))"
      "is_OSError e" "r = None"
      "s' = logging (Error_organizing filename e) (count_skipped (s\<lparr>disk := fsys'\<rparr>))"
  | (raised) e fsys' where
      "(if cp then shutil_copy2 (disk s) file_path
                     (resolve_conflict (disk s) dest_dir filename nominal) = Inl e \<and> fsys' = disk s
        else shutil_move (disk s) file_path
               (resolve_conflict (disk s) dest_dir filename nominal) = (Some e, fsys'))"
      "\<not> is_OSError e" "r = Some e" "s' = s\<lparr>disk := fsys'\<rparr>"
proof (cases cp)
  case True
  show ?thesis
  proof (cases "shutil_copy2 (disk s) file_path (resolve_conflict (disk s) dest_dir filename nominal)")
    case (Inl e)
    with assms True show ?thesis
      by (cases "is_OSError e") (auto simp: transfer_def Let_def intro: caught raised)
  next
    case (Inr f)
    with assms True show ?thesis
      by (auto simp: transfer_def Let_def intro: ok)
  qed
next
  case False
  obtain err f where mv: "shutil_move (disk s) file_path
      (resolve_conflict (disk s) dest_dir filename nominal) = (err, f)"
    by (cases "shutil_move (disk s) file_path
      (resolve_conflict (disk s) dest_dir filename nominal)")
  show ?thesis
  proof (cases err)
    case None
    with assms False mv show ?thesis
      by (auto simp: transfer_def Let_def intro: ok)
  next
    case (Some e)
    with assms False mv show ?thesis
      by (cases "is_OSError e") (auto simp: transfer_def Let_def intro: caught raised)
  qed
qed


text \<open>Claim C1. When the \<^verbatim>\<open>try\<close> block transfers a file, the final destination is free
  before the transfer. If something exists at the nominal destination, the final
  destination is \<^verbatim>\<open>base_k.ext\<close> in the same folder, where \<^verbatim>\<open>base\<close> and \<^verbatim>\<open>ext\<close> are the two
  parts \<^verbatim>\<open>os.path.splitext\<close> cuts the name into and \<open>k \<ge> 1\<close> is the smallest counter whose
  name is free; otherwise it is the nominal destination. Everything that existed before,
  the source of a move apart, is still there unchanged afterwards, and a recorded
  operation has put the file's content at the final destination.\<close>

theorem conflict_resolution_never_overwrites:
  assumes src: "lookup (disk s) file_path = Some (File c m)"
    and ext: "splitext filename = (base, ext)"
    and run: "transfer cp filename folder file_path dest_dir (dest_dir @ [filename]) s = (r, s')"
  shows "\<exists>final.
      \<not> os_path_exists (disk s) final
    \<and> (if os_path_exists (disk s) (dest_dir @ [filename])
        then \<exists>k\<ge>1. final = candidate dest_dir base ext k
               \<and> (\<forall>j. 1 \<le> j \<and> j < k \<longrightarrow> os_path_exists (disk s) (candidate dest_dir base ext j))
        else final = dest_dir @ [filename])
    \<and> base @ ext = filename
    \<and> (\<forall>p n. lookup (disk s) p = Some n \<longrightarrow> p \<noteq> file_path \<or> cp \<longrightarrow> lookup (disk s') p = Some n)
    \<and> (\<forall>p. p \<noteq> final \<longrightarrow> p \<noteq> file_path \<longrightarrow> lookup (disk s') p = lookup (disk s) p)
    \<and> (operation_history s' = operation_history s
        \<or> operation_history s' = operation_history s
              @ [\<lparr>operation = (if cp then Copy else Move), source = file_path,
                   destination = final\<rparr>]
          \<and> lookup (disk s') final = Some (File c m))"
proof -
  let ?final = "resolve_conflict (disk s) dest_dir filename (dest_dir @ [filename])"
  from resolve_conflict_spec [OF ext, of "disk s" dest_dir "dest_dir @ [filename]"]
  have fresh: "\<not> os_path_exists (disk s) ?final"
    and least: "if os_path_exists (disk s) (dest_dir @ [filename])
        then \<exists>k\<ge>1. ?final = candidate dest_dir base ext k
               \<and> (\<forall>j. 1 \<le> j \<and> j < k \<longrightarrow> os_path_exists (disk s) (candidate dest_dir base ext j))
        else ?final = dest_dir @ [filename]"
    by blast+
  from fresh have none: "lookup (disk s) ?final = None" by (simp add: not_exists_iff)
  then have nf: "p \<noteq> ?final" if "lookup (disk s) p = Some n" for p n
    using that by auto
  have mvkeep: "\<forall>p n. lookup (disk s) p = Some n \<longrightarrow> p \<noteq> file_path \<longrightarrow> lookup fsys' p = Some n"
    if "shutil_move (disk s) file_path ?final = (err, fsys')" for err fsys'
    using move_file_fresh [OF src fresh that] nf by metis
  have keep: "(\<forall>p n. lookup (disk s) p = Some n \<longrightarrow> p \<noteq> file_path \<or> cp \<longrightarrow> lookup (disk s') p = Some n)
    \<and> (\<forall>p. p \<noteq> ?final \<longrightarrow> p \<noteq> file_path \<longrightarrow> lookup (disk s') p = lookup (disk s) p)
    \<and> (operation_history s' = operation_history s
        \<or> operation_history s' = operation_history s
              @ [\<lparr>operation = (if cp then Copy else Move), source = file_path,
                   destination = ?final\<rparr>]
          \<and> lookup (disk s') ?final = Some (File c m))"
  proof (cases cp)
    case True
    from run show ?thesis
    proof (cases rule: transfer_cases)
      case (ok fsys')
      with True have cp2: "shutil_copy2 (disk s) file_path ?final = Inr fsys'" by simp
      from copy2_fresh [OF fresh cp2] src
      have "\<forall>p. lookup fsys' p = (if p = ?final then Some (File c m) else lookup (disk s) p)"
        by auto
      with ok(3) none True show ?thesis by auto
    next
      case (caught e fsys')
      with True show ?thesis by simp
    next
      case (raised e fsys')
      with True show ?thesis by simp
    qed
  next
    case False
    from run show ?thesis
    proof (cases rule: transfer_cases)
      case (ok fsys')
      with False have mv: "shutil_move (disk s) file_path ?final = (None, fsys')" by simp
      from move_file_fresh [OF src fresh mv] mvkeep [OF mv] ok(3) False show ?thesis by auto
    next
      case (caught e fsys')
      with False have mv: "shutil_move (disk s) file_path ?final = (Some e, fsys')" by simp
      from move_file_fresh [OF src fresh mv] mvkeep [OF mv] caught(4) False show ?thesis by auto
    next
      case (raised e fsys')
      with False have mv: "shutil_move (disk s) file_path ?final = (Some e, fsys')" by simp
      from move_file_fresh [OF src fresh mv] mvkeep [OF mv] raised(4) False show ?thesis by auto
    qed
  qed
  from fresh least splitext_append [OF ext] keep show ?thesis
    by (intro exI [of _ ?final]) blast
qed

theorem conflict_resolution_never_overwrites_witness:
  "lookup fs3 [''d'', ''report.pdf''] = Some (File ''second'' 2)
   \<and> splitext ''report.pdf'' = (''report'', ''.pdf'')
   \<and> os_path_exists fs3 [''d'', ''Documents'', ''report.pdf'']
   \<and> operation_history (snd (transfer False ''report.pdf'' ''Documents'' [''d'', ''report.pdf'']
         [''d'', ''Documents''] ([''d'', ''Documents''] @ [''report.pdf'']) (demo_state fs3)))
       = [\<lparr>operation = Move, source = [''d'', ''report.pdf''],
            destination = [''d'', ''Documents'', ''report_1.pdf'']\<rparr>]
   \<and> lookup (disk (snd (transfer False ''report.pdf'' ''Documents'' [''d'', ''report.pdf'']
         [''d'', ''Documents''] ([''d'', ''Documents''] @ [''report.pdf'']) (demo_state fs3))))
         [''d'', ''Documents'', ''report.pdf''] = Some (File ''first'' 1)"
proof -
  let ?t = "transfer False ''report.pdf'' ''Documents'' [''d'', ''report.pdf'']
         [''d'', ''Documents''] ([''d'', ''Documents''] @ [''report.pdf'']) (demo_state fs3)"
  have d: "disk (demo_state fs3) = fs3" by (simp add: demo_state_def)
  have h1: "lookup (disk (demo_state fs3)) [''d'', ''report.pdf''] = Some (File ''second'' 2)"
    by code_simp
  have h2: "splitext ''report.pdf'' = (''report'', ''.pdf'')" by code_simp
  have h3: "os_path_exists fs3 [''d'', ''Documents'', ''report.pdf'']" by code_simp
  have first: "lookup (disk (demo_state fs3)) [''d'', ''Documents'', ''report.pdf'']
      = Some (File ''first'' 1)" by code_simp
  have hist: "operation_history (snd ?t)
       = [\<lparr>operation = Move, source = [''d'', ''report.pdf''],
            destination = [''d'', ''Documents'', ''report_1.pdf'']\<rparr>]" by code_simp
  from conflict_resolution_never_overwrites [OF h1 h2 surjective_pairing, where cp = False
      and folder = "''Documents''" and dest_dir = "[''d'', ''Documents'']"]
  have "\<forall>p n. lookup (disk (demo_state fs3)) p = Some n \<longrightarrow> p \<noteq> [''d'', ''report.pdf''] \<or> False
      \<longrightarrow> lookup (disk (snd ?t)) p = Some n"
    by blast
  with first have "lookup (disk (snd ?t)) [''d'', ''Documents'', ''report.pdf'']
      = Some (File ''first'' 1)" by simp
  with h1 h2 h3 hist d show ?thesis by simp
qed

section \<open>Undo\<close>

lemma move_back_ok:
  assumes dst: "lookup fsys dst = Some (File c m)" and free: "\<not> os_path_exists fsys src"
    and ps: "parent_check fsys src = None" and pd: "parent_check fsys dst = None"
  shows "\<exists>fsys'. shutil_move fsys dst src = (None, fsys')
           \<and> (\<forall>p. lookup fsys' p =
                 (if p = src then Some (File c m) else if p = dst then None else lookup fsys p))"
proof -
  from rename_file_fresh_ok [OF dst free pd ps] obtain f where f: "os_rename fsys dst src = Inr f"
    by blast
  from free have "\<not> os_path_isdir fsys src" by (rule not_exists_not_isdir)
  with f have "shutil_move fsys dst src = (None, f)"
    by (simp add: shutil_move_def rename_or_copy_def)
  with move_file_fresh [OF dst free this] show ?thesis by simp
qed

lemma remove_ok:
  assumes "lookup fsys p = Some (File c m)" and "parent_check fsys p = None"
  shows "\<exists>fsys'. os_remove fsys p = Inr fsys'
           \<and> (\<forall>q. lookup fsys' q = (if q = p then None else lookup fsys q))"
proof -
  from assms have "os_remove fsys p = Inr (AList.delete p fsys)" by (simp add: os_remove_def)
  with remove_file [OF this] show ?thesis by simp
qed

lemma undo_empty:
  "operation_history s = [] \<Longrightarrow> undo_last_operation s = (False, logging Warning_no_operations s)"
  by (simp add: undo_last_operation_def)

lemma undo_pops:
  "operation_history s \<noteq> [] \<Longrightarrow>
     operation_history (snd (undo_last_operation s)) = butlast (operation_history s)"
  by (auto simp: undo_last_operation_def Let_def split: op_kind.splits prod.splits option.splits
      sum.splits)

lemma undo_missing:
  "operation_history s \<noteq> [] \<Longrightarrow>
   \<not> os_path_exists (disk s) (destination (last (operation_history s))) \<Longrightarrow>
     undo_last_operation s = (False, s\<lparr>operation_history := butlast (operation_history s)\<rparr>)"
  by (auto simp: undo_last_operation_def Let_def split: op_kind.splits)

lemma undo_move:
  assumes "operation_history s \<noteq> []" and "operation (last (operation_history s)) = Move"
    and "os_path_exists (disk s) (destination (last (operation_history s)))"
  shows "fst (undo_last_operation s)
           = (fst (shutil_move (disk s) (destination (last (operation_history s)))
                     (source (last (operation_history s)))) = None)
       \<and> disk (snd (undo_last_operation s))
           = snd (shutil_move (disk s) (destination (last (operation_history s)))
                     (source (last (operation_history s))))"
  using assms
  by (auto simp: undo_last_operation_def Let_def split: prod.splits option.splits)

lemma undo_copy:
  assumes "operation_history s \<noteq> []" and "operation (last (operation_history s)) = Copy"
    and "os_path_exists (disk s) (destination (last (operation_history s)))"
  shows "(case os_remove (disk s) (destination (last (operation_history s))) of
            Inr f \<Rightarrow> fst (undo_last_operation s) \<and> disk (snd (undo_last_operation s)) = f
          | Inl e \<Rightarrow> \<not> fst (undo_last_operation s)
                     \<and> disk (snd (undo_last_operation s)) = disk s)"
  using assms
  by (auto simp: undo_last_operation_def Let_def split: sum.splits)

text \<open>Claim C2, as amended. With an empty history \<^verbatim>\<open>undo_last_operation\<close> returns false
  and changes nothing but the log. Otherwise it pops exactly the most recent record, which
  is never pushed back, and: when the destination does not exist any more it returns
  false and leaves the file system alone; for a move whose destination exists it returns
  true exactly when \<^verbatim>\<open>shutil.move\<close> back to the source does not raise, as is the case when
  the destination is a file, nothing is at the source path and both parent directories
  are writable, the file then being back at the source path and nothing else changed;
  for a copy whose destination exists it returns true exactly when \<^verbatim>\<open>os.remove\<close> does not
  raise, the destination then being gone. After exactly one recorded operation, the call
  following the undo returns false.\<close>

theorem undo_last_operation_cases:
  assumes run: "undo_last_operation s = (b, s')" and op: "op = last (operation_history s)"
  shows
  "(operation_history s = [] \<longrightarrow> \<not> b \<and> s' = logging Warning_no_operations s)
   \<and> (operation_history s \<noteq> [] \<longrightarrow>
        operation_history s' = butlast (operation_history s)
      \<and> (\<not> os_path_exists (disk s) (destination op) \<longrightarrow> \<not> b \<and> disk s' = disk s)
      \<and> (operation op = Move \<and> os_path_exists (disk s) (destination op) \<longrightarrow>
           b = (fst (shutil_move (disk s) (destination op) (source op)) = None)
           \<and> disk s' = snd (shutil_move (disk s) (destination op) (source op)))
      \<and> (operation op = Move \<and> lookup (disk s) (destination op) = Some (File c m)
           \<and> \<not> os_path_exists (disk s) (source op)
           \<and> parent_check (disk s) (source op) = None
           \<and> parent_check (disk s) (destination op) = None \<longrightarrow>
           b \<and> (\<forall>p. lookup (disk s') p =
                   (if p = source op then Some (File c m)
                    else if p = destination op then None else lookup (disk s) p)))
      \<and> (operation op = Copy \<and> os_path_exists (disk s) (destination op) \<longrightarrow>
           b = (\<not> isl (os_remove (disk s) (destination op)))
           \<and> (b \<longrightarrow> \<not> os_path_exists (disk s') (destination op))
           \<and> (\<forall>p. p \<noteq> destination op \<longrightarrow> lookup (disk s') p = lookup (disk s) p))
      \<and> (length (operation_history s) = 1 \<longrightarrow> \<not> fst (undo_last_operation s')))"
proof (intro conjI impI)
  assume "operation_history s = []"
  with run undo_empty [of s] show "\<not> b" and "s' = logging Warning_no_operations s" by simp_all
next
  assume ne: "operation_history s \<noteq> []"
  from undo_pops [OF ne] run show pop: "operation_history s' = butlast (operation_history s)"
    by simp
  {
    assume "\<not> os_path_exists (disk s) (destination op)"
    with undo_missing [OF ne] run op show "\<not> b" and "disk s' = disk s" by simp_all
  }
  {
    assume "operation op = Move \<and> os_path_exists (disk s) (destination op)"
    with undo_move [OF ne] run op
    show "b = (fst (shutil_move (disk s) (destination op) (source op)) = None)"
      and "disk s' = snd (shutil_move (disk s) (destination op) (source op))"
      by simp_all
  }
  {
    assume a: "operation op = Move \<and> lookup (disk s) (destination op) = Some (File c m)
           \<and> \<not> os_path_exists (disk s) (source op)
           \<and> parent_check (disk s) (source op) = None
           \<and> parent_check (disk s) (destination op) = None"
    then have ex: "os_path_exists (disk s) (destination op)" by (simp add: os_path_exists_def)
    from a move_back_ok [of "disk s" "destination op" c m "source op"] obtain f where
      f: "shutil_move (disk s) (destination op) (source op) = (None, f)"
        "\<forall>p. lookup f p = (if p = source op then Some (File c m)
                else if p = destination op then None else lookup (disk s) p)"
      by blast
    from undo_move [OF ne] a ex run op f(1) have "b" and "disk s' = f" by simp_all
    with f(2) show "b" and "\<forall>p. lookup (disk s') p =
                   (if p = source op then Some (File c m)
                    else if p = destination op then None else lookup (disk s) p)"
      by simp_all
  }
  {
    assume a: "operation op = Copy \<and> os_path_exists (disk s) (destination op)"
    show "b = (\<not> isl (os_remove (disk s) (destination op)))"
      using undo_copy [OF ne] a run op by (auto split: sum.splits)
    show "\<not> os_path_exists (disk s') (destination op)" if "b"
      using undo_copy [OF ne] a run op that
      by (auto split: sum.splits dest: remove_file simp: os_path_exists_def)
    show "\<forall>p. p \<noteq> destination op \<longrightarrow> lookup (disk s') p = lookup (disk s) p"
      using undo_copy [OF ne] a run op
      by (auto split: sum.splits dest: remove_file)
  }
  {
    assume "length (operation_history s) = 1"
    with pop have "operation_history s' = []" by (cases "operation_history s") simp_all
    from undo_empty [OF this] show "\<not> fst (undo_last_operation s')" by simp
  }
qed

theorem undo_last_operation_cases_witness:
  "operation_history after_move \<noteq> [] \<and> length (operation_history after_move) = 1
   \<and> operation moved_a = Move
   \<and> lookup (disk after_move) (destination moved_a) = Some (File ''hello'' 1)
   \<and> \<not> os_path_exists (disk after_move) (source moved_a)
   \<and> parent_check (disk after_move) (source moved_a) = None
   \<and> parent_check (disk after_move) (destination moved_a) = None
   \<and> fst (undo_last_operation after_move)
   \<and> lookup (disk (snd (undo_last_operation after_move))) [''d'', ''a.txt'']
        = Some (File ''hello'' 1)
   \<and> operation_history (snd (undo_last_operation after_move)) = []
   \<and> \<not> fst (undo_last_operation (snd (undo_last_operation after_move)))"
proof -
  have op: "moved_a = last (operation_history after_move)" by code_simp
  have h: "operation_history after_move \<noteq> []" "length (operation_history after_move) = 1"
    "operation moved_a = Move"
    "lookup (disk after_move) (destination moved_a) = Some (File ''hello'' 1)"
    "\<not> os_path_exists (disk after_move) (source moved_a)"
    "parent_check (disk after_move) (source moved_a) = None"
    "parent_check (disk after_move) (destination moved_a) = None"
    by code_simp+
  have b: "butlast (operation_history after_move) = []" "source moved_a = [''d'', ''a.txt'']"
    by code_simp+
  from undo_last_operation_cases [OF surjective_pairing op, of "''hello''" 1] h b
  show ?thesis by simp
qed

text \<open>The claim as it is written fails when the move back raises: the destination of the
  recorded move exists, the directory of the source is read-only, and the call returns
  false with the file still at its destination.\<close>

theorem undo_last_operation_counterexample:
  "operation (last (operation_history ((demo_state fs4)\<lparr>operation_history := [moved_a]\<rparr>))) = Move
   \<and> os_path_exists (disk ((demo_state fs4)\<lparr>operation_history := [moved_a]\<rparr>))
        (destination (last (operation_history ((demo_state fs4)\<lparr>operation_history := [moved_a]\<rparr>))))
   \<and> \<not> fst (undo_last_operation ((demo_state fs4)\<lparr>operation_history := [moved_a]\<rparr>))
   \<and> lookup (disk (snd (undo_last_operation ((demo_state fs4)\<lparr>operation_history := [moved_a]\<rparr>))))
        [''d'', ''a.txt''] = None"
  by code_simp

section \<open>The loop body, case by case\<close>

lemma counted_fields [simp]:
  "disk (counted n s) = disk s" "operation_history (counted n s) = operation_history s"
  "logfile (counted n s) = logfile s" "file_types (counted n s) = file_types s"
  "excluded_patterns (counted n s) = excluded_patterns s"
  "config_file (counted n s) = config_file s"
  "skipped_files (stats (counted n s)) = skipped_files (stats s)"
  "total_files (stats (counted n s)) = total_files (stats s) + 1"
  "organized_files (stats (counted n s)) = organized_files (stats s)"
  "total_size (stats (counted n s)) = total_size (stats s) + n"
  "categories (stats (counted n s)) = categories (stats s)"
  by (simp_all add: counted_def)


section \<open>The statistics of a run\<close>









lemma reset_stats_fields [simp]:
  "total_files (stats (reset_stats s)) = 0" "organized_files (stats (reset_stats s)) = 0"
  "skipped_files (stats (reset_stats s)) = 0" "total_size (stats (reset_stats s)) = 0"
  "sum_list (map snd (categories (stats (reset_stats s)))) = 0"
  "logfile (reset_stats s) = logfile s" "disk (reset_stats s) = disk s"
  "operation_history (reset_stats s) = operation_history s"
  "file_types (reset_stats s) = file_types s"
  "excluded_patterns (reset_stats s) = excluded_patterns s"
  "config_file (reset_stats s) = config_file s"
  by (simp_all add: reset_stats_def comp_def)





section \<open>A move and its undo\<close>

lemma parent_check_cong:
  "lookup fsys' (butlast p) = lookup fsys (butlast p) \<Longrightarrow> parent_check fsys' p = parent_check fsys p"
  by (simp add: parent_check_def)

lemma parent_check_None_iff:
  "parent_check fsys p = None \<longleftrightarrow> p \<noteq> [] \<and> lookup fsys (butlast p) = Some (Dir True)"
  by (auto simp: parent_check_def split: option.splits node.splits)

lemma butlast_neq: "p \<noteq> [] \<Longrightarrow> butlast p \<noteq> p"
  by (metis length_butlast diff_less length_greater_0_conv less_irrefl zero_less_one)

lemma move_ok_parents:
  assumes src: "lookup fsys src = Some (File c m)" and fresh: "\<not> os_path_exists fsys dst"
    and mv: "shutil_move fsys src dst = (None, fsys')"
  shows "parent_check fsys src = None \<and> parent_check fsys dst = None"
proof -
  from fresh have nd: "\<not> os_path_isdir fsys dst" and none: "lookup fsys dst = None"
    by (simp_all add: not_exists_not_isdir not_exists_iff)
  from src have nsd: "\<not> os_path_isdir fsys src" by (rule file_not_isdir)
  from src have sne: "src \<noteq> []" by auto
  show ?thesis
  proof (cases "os_rename fsys src dst")
    case (Inr f)
    with src show ?thesis
      by (auto simp: os_rename_def split: option.splits if_splits)
  next
    case (Inl e)
    with mv nd nsd obtain f1 f2 where c: "shutil_copy2 fsys src dst = Inr f1"
      and r: "os_remove f1 src = Inr f2"
      by (auto simp: shutil_move_def rename_or_copy_def split: sum.splits)
    from c src nd none have pd: "parent_check fsys dst = None"
      by (auto simp: shutil_copy2_def split: if_splits option.splits)
    from copy2_fresh [OF fresh c] src
    have f1: "\<forall>p. lookup f1 p = (if p = dst then Some (File c m) else lookup fsys p)" by auto
    from r have p1: "parent_check f1 src = None"
      by (auto simp: os_remove_def split: option.splits node.splits)
    then have "lookup f1 (butlast src) = Some (Dir True)" by (simp add: parent_check_None_iff)
    with f1 have "lookup fsys (butlast src) = Some (Dir True)" by (auto split: if_splits)
    with sne have "parent_check fsys src = None" by (simp add: parent_check_None_iff)
    with pd show ?thesis by simp
  qed
qed

lemma move_then_back:
  assumes src: "lookup fsys src = Some (File c m)" and fresh: "\<not> os_path_exists fsys dst"
    and mv: "shutil_move fsys src dst = (None, fsys')"
  shows "\<exists>fsys''. shutil_move fsys' dst src = (None, fsys'')
           \<and> (\<forall>p. lookup fsys'' p = lookup fsys p)"
proof -
  from fresh have none: "lookup fsys dst = None" by (simp add: not_exists_iff)
  from src have sne: "src \<noteq> []" by auto
  from none have dne: "dst \<noteq> []" by auto
  from src none have diff: "src \<noteq> dst" by auto
  from move_file_fresh [OF src fresh mv]
  have f': "\<forall>p. lookup fsys' p =
            (if p = dst then Some (File c m) else if p = src then None else lookup fsys p)"
    by simp
  from move_ok_parents [OF src fresh mv]
  have ps: "lookup fsys (butlast src) = Some (Dir True)"
    and pd: "lookup fsys (butlast dst) = Some (Dir True)"
    by (simp_all add: parent_check_None_iff)
  from ps src none have "butlast src \<noteq> dst" "butlast src \<noteq> src" by auto
  with f' ps have ps': "lookup fsys' (butlast src) = Some (Dir True)" by simp
  from pd src none have "butlast dst \<noteq> dst" "butlast dst \<noteq> src" by auto
  with f' pd have pd': "lookup fsys' (butlast dst) = Some (Dir True)" by simp
  have a: "lookup fsys' dst = Some (File c m)" using f' by simp
  have b: "\<not> os_path_exists fsys' src" using f' diff by (simp add: os_path_exists_def)
  from move_back_ok [OF a b] ps' pd' sne dne obtain f2 where
    f2: "shutil_move fsys' dst src = (None, f2)"
      "\<forall>p. lookup f2 p = (if p = src then Some (File c m) else if p = dst then None
                else lookup fsys' p)"
    by (auto simp: parent_check_None_iff)
  have "\<forall>p. lookup f2 p = lookup fsys p"
    using f2(2) f' src none by auto
  with f2(1) show ?thesis by blast
qed

text \<open>Claim C3, as amended. \<^verbatim>\<open>undo_last_operation\<close> takes back one operation, the most recent:
  right after the \<^verbatim>\<open>try\<close> block has moved a file and recorded the move, it returns true
  and the file system is exactly as before that move (every path holds what it held, the
  file is back at its original path with its content and modification time) and so is
  the history. What the run did before that move, the category folders it created and the
  files it moved earlier, is not taken back.\<close>

theorem undo_restores_last_move:
  assumes src: "lookup (disk s) file_path = Some (File c m)"
    and run: "transfer False filename folder file_path dest_dir nominal s = (r, s1)"
    and recorded: "operation_history s1 \<noteq> operation_history s"
  shows "\<exists>s2. undo_last_operation s1 = (True, s2)
           \<and> (\<forall>p. lookup (disk s2) p = lookup (disk s) p)
           \<and> operation_history s2 = operation_history s"
  using run
proof (cases rule: transfer_cases)
  case (ok fsys')
  let ?final = "resolve_conflict (disk s) dest_dir filename nominal"
  from ok have mv: "shutil_move (disk s) file_path ?final = (None, fsys')" by simp
  obtain b e where sp: "splitext filename = (b, e)" by (cases "splitext filename")
  from resolve_conflict_spec [OF sp] have fresh: "\<not> os_path_exists (disk s) ?final" by blast
  from move_then_back [OF src fresh mv] obtain f2 where
    undo: "shutil_move fsys' ?final file_path = (None, f2)" "\<forall>p. lookup f2 p = lookup (disk s) p"
    by blast
  from move_file_fresh [OF src fresh mv] have "lookup fsys' ?final = Some (File c m)" by simp
  then have ex: "os_path_exists fsys' ?final" by (simp add: os_path_exists_def)
  from ok(3) have h: "operation_history s1 = operation_history s
      @ [\<lparr>operation = Move, source = file_path, destination = ?final\<rparr>]"
    and d: "disk s1 = fsys'" by simp_all
  from h d ex undo(1) have "undo_last_operation s1 =
      (True, logging (Info_undone_move ?final file_path)
               (s1\<lparr>operation_history := operation_history s, disk := f2\<rparr>))"
    by (simp add: undo_last_operation_def Let_def)
  with undo(2) show ?thesis by simp
next
  case (caught e fsys')
  with recorded show ?thesis by simp
next
  case (raised e fsys')
  with recorded show ?thesis by simp
qed


theorem undo_restores_last_move_witness:
  "lookup (disk (demo_state fs3)) [''d'', ''report.pdf''] = Some (File ''second'' 2)
   \<and> operation_history (snd (transfer False ''report.pdf'' ''Documents'' [''d'', ''report.pdf'']
         [''d'', ''Documents''] [''d'', ''Documents'', ''report.pdf''] (demo_state fs3)))
       \<noteq> operation_history (demo_state fs3)
   \<and> (\<exists>s2. undo_last_operation (snd (transfer False ''report.pdf'' ''Documents''
                 [''d'', ''report.pdf''] [''d'', ''Documents'']
                 [''d'', ''Documents'', ''report.pdf''] (demo_state fs3))) = (True, s2)
          \<and> (\<forall>p. lookup (disk s2) p = lookup (disk (demo_state fs3)) p)
          \<and> operation_history s2 = operation_history (demo_state fs3))"
proof -
  let ?t = "transfer False ''report.pdf'' ''Documents'' [''d'', ''report.pdf'']
         [''d'', ''Documents''] [''d'', ''Documents'', ''report.pdf''] (demo_state fs3)"
  have h1: "lookup (disk (demo_state fs3)) [''d'', ''report.pdf''] = Some (File ''second'' 2)"
    by code_simp
  have h2: "operation_history (snd ?t) \<noteq> operation_history (demo_state fs3)"
    by code_simp
  from undo_restores_last_move [OF h1 surjective_pairing h2] h1 h2 show ?thesis by blast
qed

text \<open>The claim as it is written fails: after a run that moved two files, one undo brings
  back the second only, and the folders of the run stay in the listing.\<close>

theorem organize_then_undo_counterexample:
  "fst (organize_files demo_env [''d''] False False (demo_state fs1))
     = Inr \<lparr>total_files = 2, organized_files = 2, skipped_files = 0,
            categories = [(''Photos'', 1), (''Documents'', 1), (''Others'', 0)],
            total_size = 6\<rparr>
   \<and> fst (undo_last_operation (snd (organize_files demo_env [''d''] False False (demo_state fs1))))
   \<and> lookup fs1 [''d'', ''a.jpg''] = Some (File ''aaaa'' 5)
   \<and> lookup (disk (snd (undo_last_operation
         (snd (organize_files demo_env [''d''] False False (demo_state fs1))))))
        [''d'', ''a.jpg''] = None
   \<and> lookup fs1 [''d'', ''Photos''] = None
   \<and> lookup (disk (snd (undo_last_operation
         (snd (organize_files demo_env [''d''] False False (demo_state fs1))))))
        [''d'', ''Photos''] = Some (Dir True)
   \<and> os_listdir fs1 [''d''] = Inr [''a.jpg'', ''b.txt'', ''run.log'']
   \<and> os_listdir (disk (snd (undo_last_operation
         (snd (organize_files demo_env [''d''] False False (demo_state fs1))))))
        [''d''] = Inr [''run.log'', ''Photos'', ''Documents'', ''Others'', ''b.txt'']"
  by code_simp

section \<open>A run on a target that is not a directory\<close>












end
